theory Spec2Isabelle
  imports Main
begin

section \<open>The configuration loader of the build bot (config.py)\<close>

text \<open>
  The module reads a dotenv file, overlays the process environment and coerces the merged
  strings into the typed fields of \<open>BotConfig\<close>. The embedding follows the module function by
  function. What the module takes from outside is a parameter of the model (record
  \<open>world\<close>): the process environment, the file test \<open>os.path.isfile\<close>, the optional
  third-party parser \<open>dotenv_values\<close> and \<open>os.cpu_count()\<close>.

  Conventions.
  \<^item> A Python \<open>str\<close> is a \<open>string\<close>; a \<open>char\<close> stands for a code point below 256.
  \<^item> A Python \<open>int\<close> is an \<open>int\<close>; \<open>int(str)\<close> and \<open>str(int)\<close> are modelled without the
    interpreter's configurable limit on the number of digits.
  \<^item> A call that may raise returns \<open>exn + 'a\<close>, with \<open>Inl\<close> the exception; \<open>try/except\<close> is a
    case distinction on that result.
  \<^item> The helpers \<open>_to_bool\<close> and \<open>_to_int\<close> are named \<open>to_bool\<close> and \<open>to_int\<close>, and a parameter
    called \<open>default\<close> in the source is \<open>dflt\<close> here.
\<close>

subsection \<open>Exceptions\<close>

text \<open>Subclasses of \<open>Exception\<close>; \<open>except Exception\<close> catches each of them.\<close>

datatype exn = ValueError | TypeError | OSError | UnicodeDecodeError

subsection \<open>Strings: \<open>str.strip\<close>, \<open>str.lower\<close>, \<open>int(str)\<close>, \<open>str(int)\<close>\<close>

text \<open>\<open>str.isspace\<close> on one character: the white space among the code points below 256.\<close>

definition isspace :: "char \<Rightarrow> bool" where
  "isspace c = (of_char c \<in> set [9, 10, 11, 12, 13, 28, 29, 30, 31, 32, 133, 160 :: nat])"

text \<open>\<open>str.lower\<close> on one character: \<open>A\<close>..\<open>Z\<close> and the upper-case letters of Latin-1.\<close>

definition lower_char :: "char \<Rightarrow> char" where
  "lower_char c =
     (let n = (of_char c :: nat)
      in if (65 \<le> n \<and> n \<le> 90) \<or> (192 \<le> n \<and> n \<le> 222 \<and> n \<noteq> 215)
         then char_of (n + 32) else c)"

definition lower :: "string \<Rightarrow> string" where
  "lower s = map lower_char s"

definition lstrip :: "string \<Rightarrow> string" where
  "lstrip s = dropWhile isspace s"

definition rstrip :: "string \<Rightarrow> string" where
  "rstrip s = rev (dropWhile isspace (rev s))"

definition strip :: "string \<Rightarrow> string" where
  "strip s = rstrip (lstrip s)"

definition isdigit :: "char \<Rightarrow> bool" where
  "isdigit c = (48 \<le> (of_char c :: nat) \<and> (of_char c :: nat) \<le> 57)"

definition digit_val :: "char \<Rightarrow> nat" where
  "digit_val c = of_char c - 48"

text \<open>
  The digits of \<open>int(s)\<close> in base 10, after the sign: decimal digits, with single underscores
  allowed between two digits. \<open>prev\<close> tells that the character before was a digit; an
  underscore anywhere else, any other character and an empty digit sequence raise
  \<open>ValueError\<close>.
\<close>

fun scan_digits :: "bool \<Rightarrow> nat \<Rightarrow> string \<Rightarrow> exn + nat" where
  "scan_digits prev acc [] = (if prev then Inr acc else Inl ValueError)"
| "scan_digits prev acc (c # cs) =
     (if isdigit c then scan_digits True (10 * acc + digit_val c) cs
      else if c = CHR ''_'' \<and> prev then scan_digits False acc cs
      else Inl ValueError)"

text \<open>\<open>int(s)\<close> for a string \<open>s\<close>: white space around is skipped, then an optional sign.\<close>

definition py_int :: "string \<Rightarrow> exn + int" where
  "py_int s =
     (case strip s of
        [] \<Rightarrow> Inl ValueError
      | c # cs \<Rightarrow>
          if c = CHR ''-'' then map_sum id (\<lambda>n. - int n) (scan_digits False 0 cs)
          else if c = CHR ''+'' then map_sum id int (scan_digits False 0 cs)
          else map_sum id int (scan_digits False 0 (c # cs)))"

text \<open>\<open>str(n)\<close> for an integer \<open>n\<close>.\<close>

fun str_nat :: "nat \<Rightarrow> string" where
  "str_nat n =
     (if n < 10 then [char_of (48 + n)]
      else str_nat (n div 10) @ [char_of (48 + n mod 10)])"

text \<open>The equation of \<open>str_nat\<close> is unfolded by hand only.\<close>

declare str_nat.simps [simp del]

definition str_int :: "int \<Rightarrow> string" where
  "str_int i = (if i < 0 then CHR ''-'' # str_nat (nat (- i)) else str_nat (nat i))"

subsection \<open>The coercion helpers\<close>

definition to_bool :: "string option \<Rightarrow> bool \<Rightarrow> bool" where
  "to_bool val dflt =
     (case val of
        None \<Rightarrow> dflt
      | Some v \<Rightarrow>
          (let s = lower (strip v)
           in if s \<in> set [''1'', ''true'', ''yes'', ''y'', ''on''] then True
              else if s \<in> set [''0'', ''false'', ''no'', ''n'', ''off''] then False
              else dflt))"

text \<open>The body of \<open>_to_int\<close> is one \<open>try\<close> block; its handler returns the default.\<close>

definition to_int :: "string option \<Rightarrow> int \<Rightarrow> exn + int" where
  "to_int val dflt =
     (case (case val of None \<Rightarrow> Inr dflt | Some v \<Rightarrow> py_int (strip v)) of
        Inl e \<Rightarrow> Inr dflt
      | Inr n \<Rightarrow> Inr n)"

subsection \<open>The record and its static defaults\<close>

record BotConfig =
  RUN_ENV_SETUP :: bool
  RUN_SOURCE_SYNC :: bool
  RUN_BUILD :: bool
  DRY_RUN :: bool
  AXION_REMOTE_URL :: string
  AXION_BRANCH :: string
  WORKDIR :: string
  THREADS :: int
  WITH_MIUI_CAM :: bool
  APPLY_WPA_PATCHES :: bool
  BUILD_VOLUME_DEVICE :: string
  USE_SAFE_BUILD :: bool
  DEVICE :: string
  VARIANT :: string
  ROM_TYPE :: string
  CONFIG_OFFICIAL_FLAG :: string
  CONFIG_CHATID :: string
  CONFIG_BOT_TOKEN :: string
  CONFIG_ERROR_CHATID :: string
  RCLONE_REMOTE :: string
  RCLONE_FOLDER :: string
  PIXELDRAIN_API_KEY :: string
  POWEROFF :: bool
  UPLOAD_OTA_JSON :: bool
  OTA_JSON_PATH :: string
  PIN_SUCCESS_MESSAGE :: bool
  ENV_FILE :: string

text \<open>\<open>os.cpu_count() or 8\<close>: \<open>None\<close> and \<open>0\<close> are both falsy.\<close>

definition cpu_count_or_8 :: "nat option \<Rightarrow> int" where
  "cpu_count_or_8 cpu = (case cpu of None \<Rightarrow> 8 | Some n \<Rightarrow> if n = 0 then 8 else int n)"

text \<open>The class attributes of \<open>BotConfig\<close>, which are the defaults of the dataclass fields.\<close>

definition class_defaults :: "nat option \<Rightarrow> BotConfig" where
  "class_defaults cpu =
     \<lparr> RUN_ENV_SETUP = True,
       RUN_SOURCE_SYNC = True,
       RUN_BUILD = False,
       DRY_RUN = False,
       AXION_REMOTE_URL = ''https://github.com/AxionAOSP/android.git'',
       AXION_BRANCH = ''lineage-23.0'',
       WORKDIR = ''axionos'',
       THREADS = cpu_count_or_8 cpu,
       WITH_MIUI_CAM = False,
       APPLY_WPA_PATCHES = False,
       BUILD_VOLUME_DEVICE = '''',
       USE_SAFE_BUILD = True,
       DEVICE = ''xaga'',
       VARIANT = ''userdebug'',
       ROM_TYPE = ''axion-pico'',
       CONFIG_OFFICIAL_FLAG = '''',
       CONFIG_CHATID = '''',
       CONFIG_BOT_TOKEN = '''',
       CONFIG_ERROR_CHATID = '''',
       RCLONE_REMOTE = '''',
       RCLONE_FOLDER = '''',
       PIXELDRAIN_API_KEY = '''',
       POWEROFF = False,
       UPLOAD_OTA_JSON = True,
       OTA_JSON_PATH = ''vendor/ota/your_device_name.json'',
       PIN_SUCCESS_MESSAGE = True,
       ENV_FILE = ''.env'' \<rparr>"

subsection \<open>What the loader reads from outside\<close>

text \<open>
  \<open>environ\<close> is \<open>os.environ\<close>; \<open>isfile\<close> is \<open>os.path.isfile\<close>; \<open>dotenv_values\<close> is the module
  variable of that name: \<open>None\<close> when the import of the parser failed, otherwise the parser,
  which given a path raises or returns a dictionary whose values may be \<open>None\<close>;
  \<open>cpu_count\<close> is the result of \<open>os.cpu_count()\<close>.
\<close>

record world =
  environ :: "string \<rightharpoonup> string"
  isfile :: "string \<Rightarrow> bool"
  dotenv_values :: "(string \<Rightarrow> exn + (string \<rightharpoonup> string option)) option"
  cpu_count :: "nat option"

subsection \<open>\<open>BotConfig.load\<close>\<close>

text \<open>\<open>a or d\<close> for an optional string \<open>a\<close>: \<open>None\<close> and the empty string are falsy.\<close>

fun or_else :: "string option \<Rightarrow> string \<Rightarrow> string" where
  "or_else None d = d"
| "or_else (Some s) d = (if s = [] then d else s)"

text \<open>Lines 85 to 89: the path, then the fallback to \<open>.env_xaga\<close>.\<close>

definition resolve_env_path :: "world \<Rightarrow> string option \<Rightarrow> string" where
  "resolve_env_path w env_file =
     (let env_path = or_else env_file (or_else (environ w ''ENV_FILE'') ''.env'')
      in if \<not> isfile w env_path \<and> isfile w ''.env_xaga'' then ''.env_xaga'' else env_path)"

text \<open>The comprehension \<open>{k: v for k, v in file_vals.items() if v is not None}\<close>.\<close>

definition drop_none :: "(string \<rightharpoonup> string option) \<Rightarrow> (string \<rightharpoonup> string)" where
  "drop_none file_vals =
     (\<lambda>k. case file_vals k of None \<Rightarrow> None | Some None \<Rightarrow> None | Some (Some v) \<Rightarrow> Some v)"

text \<open>
  Lines 84 and 91 to 97: \<open>merged\<close> after the file has been tried. The handler of the \<open>try\<close>
  block passes, which leaves \<open>merged\<close> empty.
\<close>

definition file_layer :: "world \<Rightarrow> string \<Rightarrow> exn + (string \<rightharpoonup> string)" where
  "file_layer w env_path =
     (case dotenv_values w of
        None \<Rightarrow> Inr Map.empty
      | Some parse \<Rightarrow>
          if isfile w env_path then
            (case parse env_path of
               Inl e \<Rightarrow> Inr Map.empty
             | Inr file_vals \<Rightarrow> Inr (Map.empty ++ drop_none file_vals))
          else Inr Map.empty)"

text \<open>Lines 100 and 101: every environment variable is written over \<open>merged\<close>.\<close>

definition merged_env :: "world \<Rightarrow> string \<Rightarrow> exn + (string \<rightharpoonup> string)" where
  "merged_env w env_path =
     (case file_layer w env_path of
        Inl e \<Rightarrow> Inl e
      | Inr merged \<Rightarrow> Inr (merged ++ environ w))"

text \<open>\<open>merged.get(key, dflt)\<close>.\<close>

definition get_or :: "(string \<rightharpoonup> string) \<Rightarrow> string \<Rightarrow> string \<Rightarrow> string" where
  "get_or merged key dflt = (case merged key of None \<Rightarrow> dflt | Some v \<Rightarrow> v)"

text \<open>
  Lines 103 to 131: the constructor call. \<open>cls\<close> is the record of class attributes. The one
  argument whose evaluation goes through a call that can raise is \<open>THREADS\<close>.
\<close>

definition construct :: "BotConfig \<Rightarrow> (string \<rightharpoonup> string) \<Rightarrow> string \<Rightarrow> exn + BotConfig" where
  "construct cls merged env_path =
     (case to_int (merged ''THREADS'') (THREADS cls) of
        Inl e \<Rightarrow> Inl e
      | Inr threads \<Rightarrow>
          Inr \<lparr> RUN_ENV_SETUP = to_bool (merged ''RUN_ENV_SETUP'') True,
                RUN_SOURCE_SYNC = to_bool (merged ''RUN_SOURCE_SYNC'') True,
                RUN_BUILD = to_bool (merged ''RUN_BUILD'') False,
                DRY_RUN = to_bool (merged ''DRY_RUN'') False,
                AXION_REMOTE_URL = get_or merged ''AXION_REMOTE_URL'' (AXION_REMOTE_URL cls),
                AXION_BRANCH = get_or merged ''AXION_BRANCH'' (AXION_BRANCH cls),
                WORKDIR = get_or merged ''WORKDIR'' (WORKDIR cls),
                THREADS = threads,
                WITH_MIUI_CAM = to_bool (merged ''WITH_MIUI_CAM'') False,
                APPLY_WPA_PATCHES = to_bool (merged ''APPLY_WPA_PATCHES'') False,
                BUILD_VOLUME_DEVICE =
                  get_or merged ''BUILD_VOLUME_DEVICE'' (BUILD_VOLUME_DEVICE cls),
                USE_SAFE_BUILD = to_bool (merged ''USE_SAFE_BUILD'') True,
                DEVICE = get_or merged ''DEVICE'' (DEVICE cls),
                VARIANT = get_or merged ''VARIANT'' (VARIANT cls),
                ROM_TYPE = get_or merged ''ROM_TYPE'' (ROM_TYPE cls),
                CONFIG_OFFICIAL_FLAG =
                  get_or merged ''CONFIG_OFFICIAL_FLAG'' (CONFIG_OFFICIAL_FLAG cls),
                CONFIG_CHATID = get_or merged ''CONFIG_CHATID'' (CONFIG_CHATID cls),
                CONFIG_BOT_TOKEN = get_or merged ''CONFIG_BOT_TOKEN'' (CONFIG_BOT_TOKEN cls),
                CONFIG_ERROR_CHATID =
                  get_or merged ''CONFIG_ERROR_CHATID'' (CONFIG_ERROR_CHATID cls),
                RCLONE_REMOTE = get_or merged ''RCLONE_REMOTE'' (RCLONE_REMOTE cls),
                RCLONE_FOLDER = get_or merged ''RCLONE_FOLDER'' (RCLONE_FOLDER cls),
                PIXELDRAIN_API_KEY =
                  get_or merged ''PIXELDRAIN_API_KEY'' (PIXELDRAIN_API_KEY cls),
                POWEROFF = to_bool (merged ''POWEROFF'') False,
                UPLOAD_OTA_JSON = to_bool (merged ''UPLOAD_OTA_JSON'') True,
                OTA_JSON_PATH = get_or merged ''OTA_JSON_PATH'' (OTA_JSON_PATH cls),
                PIN_SUCCESS_MESSAGE = to_bool (merged ''PIN_SUCCESS_MESSAGE'') True,
                ENV_FILE = env_path \<rparr>)"

definition load :: "world \<Rightarrow> string option \<Rightarrow> exn + BotConfig" where
  "load w env_file =
     (let env_path = resolve_env_path w env_file
      in case merged_env w env_path of
           Inl e \<Rightarrow> Inl e
         | Inr merged \<Rightarrow> construct (class_defaults (cpu_count w)) merged env_path)"

subsection \<open>\<open>to_script_env\<close> and \<open>as_dict\<close>\<close>

text \<open>A dictionary literal keeps the order of its items: an association list.\<close>

definition to_script_env :: "BotConfig \<Rightarrow> (string \<times> string) list" where
  "to_script_env self =
     [(''AXION_REMOTE_URL'', AXION_REMOTE_URL self),
      (''AXION_BRANCH'', AXION_BRANCH self),
      (''WORKDIR'', WORKDIR self),
      (''THREADS'', str_int (THREADS self)),
      (''WITH_MIUI_CAM'', if WITH_MIUI_CAM self then ''true'' else ''false''),
      (''APPLY_WPA_PATCHES'', if APPLY_WPA_PATCHES self then ''true'' else ''false''),
      (''BUILD_VOLUME_DEVICE'', BUILD_VOLUME_DEVICE self)]"

text \<open>The values a field can hold at run time, and the types the dataclass declares.\<close>

datatype pyval = PyNone | PyBool bool | PyInt int | PyStr string





text \<open>The boolean fields and the string fields that \<open>load\<close> reads from \<open>merged\<close>.\<close>

definition bool_fields :: "(string \<times> (BotConfig \<Rightarrow> bool)) list" where
  "bool_fields =
     [(''RUN_ENV_SETUP'', RUN_ENV_SETUP), (''RUN_SOURCE_SYNC'', RUN_SOURCE_SYNC),
      (''RUN_BUILD'', RUN_BUILD), (''DRY_RUN'', DRY_RUN), (''WITH_MIUI_CAM'', WITH_MIUI_CAM),
      (''APPLY_WPA_PATCHES'', APPLY_WPA_PATCHES), (''USE_SAFE_BUILD'', USE_SAFE_BUILD),
      (''POWEROFF'', POWEROFF), (''UPLOAD_OTA_JSON'', UPLOAD_OTA_JSON),
      (''PIN_SUCCESS_MESSAGE'', PIN_SUCCESS_MESSAGE)]"

definition str_fields :: "(string \<times> (BotConfig \<Rightarrow> string)) list" where
  "str_fields =
     [(''AXION_REMOTE_URL'', AXION_REMOTE_URL), (''AXION_BRANCH'', AXION_BRANCH),
      (''WORKDIR'', WORKDIR), (''BUILD_VOLUME_DEVICE'', BUILD_VOLUME_DEVICE),
      (''DEVICE'', DEVICE), (''VARIANT'', VARIANT), (''ROM_TYPE'', ROM_TYPE),
      (''CONFIG_OFFICIAL_FLAG'', CONFIG_OFFICIAL_FLAG), (''CONFIG_CHATID'', CONFIG_CHATID),
      (''CONFIG_BOT_TOKEN'', CONFIG_BOT_TOKEN), (''CONFIG_ERROR_CHATID'', CONFIG_ERROR_CHATID),
      (''RCLONE_REMOTE'', RCLONE_REMOTE), (''RCLONE_FOLDER'', RCLONE_FOLDER),
      (''PIXELDRAIN_API_KEY'', PIXELDRAIN_API_KEY), (''OTA_JSON_PATH'', OTA_JSON_PATH)]"

subsection \<open>An instance and the operations on it\<close>

text \<open>
  Line 40 declares the class with \<open>@dataclass\<close> and without \<open>frozen=True\<close>. An instance
  keeps its fields in its attribute dictionary, which starts as the constructor fills it:
  the items of \<open>as_dict\<close>. No \<open>__setattr__\<close> guard is generated, so an assignment
  \<open>self.name = value\<close> stores the value under the name, whatever its type, \<open>None\<close> included.
\<close>

type_synonym attr_dict = "(string \<times> pyval) list"

fun setattr :: "string \<Rightarrow> pyval \<Rightarrow> attr_dict \<Rightarrow> attr_dict" where
  "setattr name val [] = [(name, val)]"
| "setattr name val (item # items) =
     (if fst item = name then (name, val) # items else item # setattr name val items)"






subsection \<open>The specification's wording, for comparison with the code\<close>

text \<open>The positional value of a sequence of decimal digits.\<close>

definition decimal_value :: "string \<Rightarrow> nat" where
  "decimal_value ds = foldl (\<lambda>a c. 10 * a + digit_val c) 0 ds"

text \<open>
  \<open>s\<close> is the decimal representation of \<open>n\<close>: a minus sign exactly when \<open>n\<close> is negative, then
  the digits of the absolute value, at least one, with no leading zero but for zero itself.
\<close>

definition is_decimal_of :: "string \<Rightarrow> int \<Rightarrow> bool" where
  "is_decimal_of s n =
     (let ds = (if n < 0 then tl s else s)
      in (if n < 0 then s \<noteq> [] \<and> hd s = CHR ''-'' else True) \<and>
         ds \<noteq> [] \<and> list_all isdigit ds \<and>
         (if hd ds = CHR ''0'' then ds = ''0'' else True) \<and>
         int (decimal_value ds) = abs n)"

text \<open>A case-insensitive match of a value against one of the words of a fixed set.\<close>

definition ci_match :: "string \<Rightarrow> string \<Rightarrow> bool" where
  "ci_match a b = (lower a = lower b)"

definition truthy :: "string list" where
  "truthy = [''1'', ''true'', ''yes'', ''y'', ''on'']"

definition falsy :: "string list" where
  "falsy = [''0'', ''false'', ''no'', ''n'', ''off'']"

text \<open>
  Boolean coercion as the specification words it: the value itself is matched against the
  two sets.
\<close>

definition coerce_bool_spec :: "string option \<Rightarrow> bool \<Rightarrow> bool" where
  "coerce_bool_spec val dflt =
     (case val of
        None \<Rightarrow> dflt
      | Some v \<Rightarrow>
          if list_ex (ci_match v) truthy then True
          else if list_ex (ci_match v) falsy then False
          else dflt)"

text \<open>
  The path as the specification words it: the explicit argument if given, else the variable
  \<open>ENV_FILE\<close>, else \<open>.env\<close>, and \<open>.env_xaga\<close> in place of an absent \<open>.env\<close>.
\<close>

definition env_path_spec :: "world \<Rightarrow> string option \<Rightarrow> string" where
  "env_path_spec w env_file =
     (case env_file of
        Some p \<Rightarrow> p
      | None \<Rightarrow>
          (case environ w ''ENV_FILE'' of
             Some p \<Rightarrow> p
           | None \<Rightarrow>
               if \<not> isfile w ''.env'' \<and> isfile w ''.env_xaga'' then ''.env_xaga''
               else ''.env''))"

text \<open>
  The first choice of a path when the empty string counts as no path: the explicit argument,
  else the variable \<open>ENV_FILE\<close>, else \<open>.env\<close>.
\<close>

definition first_choice :: "world \<Rightarrow> string option \<Rightarrow> string" where
  "first_choice w env_file =
     (case env_file of
        Some (c # cs) \<Rightarrow> c # cs
      | _ \<Rightarrow>
          (case environ w ''ENV_FILE'' of
             Some (c # cs) \<Rightarrow> c # cs
           | _ \<Rightarrow> ''.env''))"

subsection \<open>Sample inputs\<close>

text \<open>
  A machine with four processors, the given environment and the given files; \<open>parser\<close> is
  the module variable \<open>dotenv_values\<close>.
\<close>

definition sample_world ::
  "(string \<rightharpoonup> string) \<Rightarrow> string list \<Rightarrow>
     (string \<Rightarrow> exn + (string \<rightharpoonup> string option)) option \<Rightarrow> world" where
  "sample_world env files parser =
     \<lparr> environ = env, isfile = (\<lambda>p. p \<in> set files), dotenv_values = parser,
       cpu_count = Some 4 \<rparr>"

text \<open>A file that sets two keys and names a third one without a value.\<close>

definition sample_file :: "string \<rightharpoonup> string option" where
  "sample_file =
     [''RUN_BUILD'' \<mapsto> Some ''0'', ''DEVICE'' \<mapsto> Some ''rubens'', ''VARIANT'' \<mapsto> None]"

section \<open>Properties of the helpers\<close>

subsection \<open>Stripping white space\<close>

lemma lstrip_pad: "list_all isspace l \<Longrightarrow> lstrip (l @ s) = lstrip s"
  by (simp add: lstrip_def list_all_iff dropWhile_append2)

lemma rstrip_pad:
  assumes "list_all isspace r"
  shows "rstrip (s @ r) = rstrip s"
proof -
  from assms have "\<And>x. x \<in> set (rev r) \<Longrightarrow> isspace x" by (simp add: list_all_iff)
  then have "dropWhile isspace (rev r @ rev s) = dropWhile isspace (rev s)"
    by (rule dropWhile_append2)
  then show ?thesis by (simp add: rstrip_def)
qed

lemma rstrip_all_space: "list_all isspace s \<Longrightarrow> rstrip s = []"
  by (simp add: rstrip_def list_all_iff)

lemma lstrip_all_space: "list_all isspace s \<Longrightarrow> lstrip s = []"
  by (simp add: lstrip_def list_all_iff)

lemma lstrip_append_right:
  "\<not> list_all isspace s \<Longrightarrow> lstrip (s @ r) = lstrip s @ r"
  by (auto simp: lstrip_def list_all_iff dropWhile_append1)

lemma strip_pad:
  assumes "list_all isspace l" and "list_all isspace r"
  shows "strip (l @ s @ r) = strip s"
proof (cases "list_all isspace s")
  case True
  with assms have "list_all isspace (l @ s @ r)" by simp
  then have "strip (l @ s @ r) = []"
    unfolding strip_def by (simp only: lstrip_all_space) (simp add: rstrip_def)
  moreover from True have "strip s = []"
    unfolding strip_def by (simp only: lstrip_all_space) (simp add: rstrip_def)
  ultimately show ?thesis by simp
next
  case False
  have "strip (l @ s @ r) = rstrip (lstrip (s @ r))"
    by (simp add: strip_def lstrip_pad assms)
  also have "\<dots> = rstrip (lstrip s @ r)"
    by (simp add: lstrip_append_right False)
  also have "\<dots> = strip s"
    by (simp add: strip_def rstrip_pad assms)
  finally show ?thesis .
qed

lemma rstrip_prefix: "rstrip s @ rev (takeWhile isspace (rev s)) = s"
proof -
  have "rev (takeWhile isspace (rev s) @ dropWhile isspace (rev s)) = s" by simp
  then show ?thesis unfolding rstrip_def by (simp only: rev_append)
qed

lemma lstrip_head: "lstrip s \<noteq> [] \<Longrightarrow> \<not> isspace (hd (lstrip s))"
  unfolding lstrip_def by (rule hd_dropWhile)

lemma rstrip_last: "rstrip s \<noteq> [] \<Longrightarrow> \<not> isspace (last (rstrip s))"
  unfolding rstrip_def by (simp add: last_rev hd_dropWhile)

lemma rstrip_head: "rstrip s \<noteq> [] \<Longrightarrow> hd (rstrip s) = hd s"
  by (metis hd_append2 rstrip_prefix)

lemma rstrip_nonempty_arg: "rstrip s \<noteq> [] \<Longrightarrow> s \<noteq> []"
  by (auto simp: rstrip_def)

lemma strip_ends:
  assumes "strip s \<noteq> []"
  shows "\<not> isspace (hd (strip s))" and "\<not> isspace (last (strip s))"
proof -
  from assms have ne: "lstrip s \<noteq> []" unfolding strip_def by (rule rstrip_nonempty_arg)
  from assms have "hd (strip s) = hd (lstrip s)" unfolding strip_def by (rule rstrip_head)
  with lstrip_head [OF ne] show "\<not> isspace (hd (strip s))" by simp
  from assms show "\<not> isspace (last (strip s))" unfolding strip_def by (rule rstrip_last)
qed

lemma strip_fixed:
  assumes "s \<noteq> []" and "\<not> isspace (hd s)" and "\<not> isspace (last s)"
  shows "strip s = s"
proof -
  from assms have "lstrip s = s" by (cases s) (simp_all add: lstrip_def)
  moreover from assms have "rstrip s = s"
    by (cases "rev s") (simp_all add: rstrip_def last_rev [symmetric] hd_rev)
  ultimately show ?thesis by (simp add: strip_def)
qed

lemma strip_idem: "strip (strip s) = strip s"
proof (cases "strip s = []")
  case True
  have "strip [] = []" by (simp add: strip_def lstrip_def rstrip_def)
  with True show ?thesis by simp
next
  case False
  then show ?thesis by (intro strip_fixed strip_ends)
qed

lemma py_int_strip: "py_int (strip v) = py_int v"
  by (simp add: py_int_def strip_idem)

subsection \<open>Parsing an integer\<close>

lemma digit_not_space: "isdigit c \<Longrightarrow> \<not> isspace c"
  by (auto simp: isdigit_def isspace_def)

lemma scan_digits_all_digits:
  "list_all isdigit ds \<Longrightarrow> prev \<or> ds \<noteq> [] \<Longrightarrow>
   scan_digits prev acc ds = Inr (foldl (\<lambda>a c. 10 * a + digit_val c) acc ds)"
  by (induction ds arbitrary: prev acc) simp_all

lemma scan_digits_chars:
  "scan_digits prev acc s = Inr n \<Longrightarrow> list_all (\<lambda>c. isdigit c \<or> c = CHR ''_'') s"
  by (induction s arbitrary: prev acc) (auto split: if_splits)

lemma py_int_digits:
  assumes "ds \<noteq> []" and "list_all isdigit ds"
  shows "py_int ds = Inr (int (decimal_value ds))"
proof -
  from assms obtain c cs where ds: "ds = c # cs" by (cases ds) simp_all
  from assms have "isdigit (hd ds)" and "isdigit (last ds)"
    by (simp_all add: list_all_iff)
  then have "\<not> isspace (hd ds)" and "\<not> isspace (last ds)"
    by (simp_all add: digit_not_space)
  with assms(1) have st: "strip ds = ds" by (rule strip_fixed)
  from assms ds have "isdigit c" by simp
  then have c: "c \<noteq> CHR ''-''" "c \<noteq> CHR ''+''" by (auto simp: isdigit_def)
  from assms have sc: "scan_digits False 0 ds = Inr (decimal_value ds)"
    by (simp add: scan_digits_all_digits decimal_value_def)
  have "py_int ds = map_sum id int (scan_digits False 0 ds)"
    unfolding py_int_def st using c by (simp add: ds)
  with sc show ?thesis by simp
qed

lemma py_int_minus:
  assumes "ds \<noteq> []" and "list_all isdigit ds"
  shows "py_int (CHR ''-'' # ds) = Inr (- int (decimal_value ds))"
proof -
  from assms have "isdigit (last ds)" by (simp add: list_all_iff)
  then have "\<not> isspace (last ds)" by (rule digit_not_space)
  with assms(1) have l: "\<not> isspace (last (CHR ''-'' # ds))" by simp
  have h: "\<not> isspace (hd (CHR ''-'' # ds))" by (simp add: isspace_def)
  have st: "strip (CHR ''-'' # ds) = CHR ''-'' # ds"
    by (rule strip_fixed [OF _ h l]) simp
  from assms have sc: "scan_digits False 0 ds = Inr (decimal_value ds)"
    by (simp add: scan_digits_all_digits decimal_value_def)
  show ?thesis unfolding py_int_def st by (simp add: sc)
qed

lemma py_int_plus:
  assumes "ds \<noteq> []" and "list_all isdigit ds"
  shows "py_int (CHR ''+'' # ds) = Inr (int (decimal_value ds))"
proof -
  from assms have "isdigit (last ds)" by (simp add: list_all_iff)
  then have "\<not> isspace (last ds)" by (rule digit_not_space)
  with assms(1) have l: "\<not> isspace (last (CHR ''+'' # ds))" by simp
  have h: "\<not> isspace (hd (CHR ''+'' # ds))" by (simp add: isspace_def)
  have st: "strip (CHR ''+'' # ds) = CHR ''+'' # ds"
    by (rule strip_fixed [OF _ h l]) simp
  from assms have sc: "scan_digits False 0 ds = Inr (decimal_value ds)"
    by (simp add: scan_digits_all_digits decimal_value_def)
  show ?thesis unfolding py_int_def st by (simp add: sc)
qed

lemma scan_digits_foreign:
  "c \<in> set s \<Longrightarrow> \<not> isdigit c \<Longrightarrow> c \<noteq> CHR ''_'' \<Longrightarrow> scan_digits prev acc s = Inl ValueError"
  by (induction s arbitrary: prev acc) auto

lemma scan_digits_error: "scan_digits prev acc s = Inl e \<Longrightarrow> e = ValueError"
  by (induction s arbitrary: prev acc) (auto split: if_splits)

lemma py_int_non_numeric:
  assumes "c \<in> set (strip v)" and "\<not> isdigit c"
    and "c \<noteq> CHR ''_''" and "c \<noteq> CHR ''+''" and "c \<noteq> CHR ''-''"
  shows "py_int v = Inl ValueError"
proof (cases "strip v")
  case Nil
  with assms(1) show ?thesis by simp
next
  case (Cons c0 cs)
  have whole: "scan_digits False 0 (c0 # cs) = Inl ValueError"
    using assms Cons by (intro scan_digits_foreign [of c]) simp_all
  show ?thesis
  proof (cases "c0 = CHR ''-'' \<or> c0 = CHR ''+''")
    case True
    with assms Cons have "c \<in> set cs" by auto
    then have "scan_digits False 0 cs = Inl ValueError"
      using assms by (intro scan_digits_foreign [of c]) simp_all
    with True Cons show ?thesis by (auto simp: py_int_def)
  next
    case False
    with whole Cons show ?thesis by (simp add: py_int_def)
  qed
qed

lemma to_int_total: "\<exists>n. to_int val dflt = Inr n"
  by (simp add: to_int_def split: option.split sum.split)

lemma to_int_absent: "to_int None dflt = Inr dflt"
  by (simp add: to_int_def)

lemma to_int_present:
  "to_int (Some v) dflt = Inr (case py_int v of Inl e \<Rightarrow> dflt | Inr n \<Rightarrow> n)"
  by (simp add: to_int_def py_int_strip split: sum.split)

subsection \<open>Rendering an integer\<close>

lemma digit_char:
  fixes d :: nat
  assumes "d < 10"
  shows "isdigit (char_of (48 + d))" and "digit_val (char_of (48 + d)) = d"
proof -
  from assms have "(48 + d) mod 256 = 48 + d" by simp
  then have "of_char (char_of (48 + d) :: char) = 48 + d" by (simp only: of_char_of)
  with assms show "isdigit (char_of (48 + d))" and "digit_val (char_of (48 + d)) = d"
    by (simp_all add: isdigit_def digit_val_def)
qed

lemma char_zero:
  fixes d :: nat
  assumes a: "char_of (48 + d) = CHR ''0''" and d: "d < 10"
  shows "d = 0"
proof -
  from d have "digit_val (char_of (48 + d)) = d" by (rule digit_char)
  with a show ?thesis by (simp add: digit_val_def)
qed

lemma str_nat_nonempty: "str_nat n \<noteq> []"
  by (subst str_nat.simps) simp

lemma str_nat_digits: "list_all isdigit (str_nat n)"
proof (induction n rule: str_nat.induct)
  case (1 n)
  show ?case
  proof (cases "n < 10")
    case True
    then show ?thesis by (subst str_nat.simps) (simp add: digit_char)
  next
    case False
    with 1 show ?thesis by (subst str_nat.simps) (simp add: digit_char)
  qed
qed

lemma decimal_value_snoc:
  "decimal_value (ds @ [c]) = 10 * decimal_value ds + digit_val c"
  by (simp add: decimal_value_def)

lemma str_nat_value: "decimal_value (str_nat n) = n"
proof (induction n rule: str_nat.induct)
  case (1 n)
  show ?case
  proof (cases "n < 10")
    case True
    then show ?thesis
      by (subst str_nat.simps) (simp add: decimal_value_def digit_char)
  next
    case False
    with 1 have "decimal_value (str_nat (n div 10)) = n div 10" by simp
    with False show ?thesis
      by (subst str_nat.simps) (simp add: decimal_value_snoc digit_char)
  qed
qed

lemma str_nat_0: "str_nat 0 = ''0''"
  by code_simp

lemma str_nat_leading: "hd (str_nat n) = CHR ''0'' \<Longrightarrow> str_nat n = ''0''"
proof (induction n rule: str_nat.induct)
  case (1 n)
  show ?case
  proof (cases "n < 10")
    case True
    with "1.prems" have "char_of (48 + n) = CHR ''0''"
      by (subst (asm) str_nat.simps) simp
    then have "n = 0" using True by (rule char_zero)
    then show ?thesis by (simp only: str_nat_0)
  next
    case False
    have ne: "str_nat (n div 10) \<noteq> []" by (rule str_nat_nonempty)
    from False "1.prems" have "hd (str_nat (n div 10)) = CHR ''0''"
      by (subst (asm) str_nat.simps) (simp add: ne)
    with 1 False have "str_nat (n div 10) = ''0''" by simp
    then have "decimal_value (str_nat (n div 10)) = 0" by (simp add: decimal_value_def digit_val_def)
    then have "n div 10 = 0" by (simp only: str_nat_value)
    with False show ?thesis by simp
  qed
qed

lemma str_int_decimal: "is_decimal_of (str_int n) n"
proof (cases "n < 0")
  case True
  let ?ds = "str_nat (nat (- n))"
  have "?ds \<noteq> []" and "list_all isdigit ?ds" and "int (decimal_value ?ds) = \<bar>n\<bar>"
    and "(if hd ?ds = CHR ''0'' then ?ds = ''0'' else True)"
    using True by (simp_all add: str_nat_nonempty str_nat_digits str_nat_value str_nat_leading)
  with True show ?thesis
    by (simp add: is_decimal_of_def str_int_def)
next
  case False
  let ?ds = "str_nat (nat n)"
  have "?ds \<noteq> []" and "list_all isdigit ?ds" and "int (decimal_value ?ds) = \<bar>n\<bar>"
    and "(if hd ?ds = CHR ''0'' then ?ds = ''0'' else True)"
    using False by (simp_all add: str_nat_nonempty str_nat_digits str_nat_value str_nat_leading)
  with False show ?thesis
    by (simp add: is_decimal_of_def str_int_def)
qed

lemma py_int_str_int: "py_int (str_int n) = Inr n"
proof (cases "n < 0")
  case True
  have "py_int (CHR ''-'' # str_nat (nat (- n))) = Inr (- int (decimal_value (str_nat (nat (- n)))))"
    by (rule py_int_minus) (simp_all add: str_nat_nonempty str_nat_digits)
  with True show ?thesis by (simp add: str_int_def str_nat_value)
next
  case False
  have "py_int (str_nat (nat n)) = Inr (int (decimal_value (str_nat (nat n))))"
    by (rule py_int_digits) (simp_all add: str_nat_nonempty str_nat_digits)
  with False show ?thesis by (simp add: str_int_def str_nat_value)
qed

subsection \<open>Boolean coercion\<close>

lemma lower_truthy: "map lower truthy = truthy"
  unfolding truthy_def by code_simp

lemma lower_falsy: "map lower falsy = falsy"
  unfolding falsy_def by code_simp

lemma ci_in_words: "list_ex (ci_match s) ws = (lower s \<in> set (map lower ws))"
  by (induction ws) (auto simp: ci_match_def)

lemma to_bool_spec: "to_bool val dflt = coerce_bool_spec (map_option strip val) dflt"
proof (cases val)
  case None
  then show ?thesis by (simp add: to_bool_def coerce_bool_spec_def)
next
  case (Some v)
  have t: "list_ex (ci_match (strip v)) truthy = (lower (strip v) \<in> set truthy)"
    by (simp only: ci_in_words lower_truthy)
  have f: "list_ex (ci_match (strip v)) falsy = (lower (strip v) \<in> set falsy)"
    by (simp only: ci_in_words lower_falsy)
  show ?thesis
    unfolding Some to_bool_def coerce_bool_spec_def option.map option.case Let_def t f
    by (simp only: truthy_def falsy_def)
qed

lemma to_bool_absent: "to_bool None dflt = dflt"
  by (simp add: to_bool_def)

subsection \<open>The merged mapping and the constructor call\<close>

lemma construct_eq:
  "construct cls merged env_path =
     Inr \<lparr> RUN_ENV_SETUP = to_bool (merged ''RUN_ENV_SETUP'') True,
           RUN_SOURCE_SYNC = to_bool (merged ''RUN_SOURCE_SYNC'') True,
           RUN_BUILD = to_bool (merged ''RUN_BUILD'') False,
           DRY_RUN = to_bool (merged ''DRY_RUN'') False,
           AXION_REMOTE_URL = get_or merged ''AXION_REMOTE_URL'' (AXION_REMOTE_URL cls),
           AXION_BRANCH = get_or merged ''AXION_BRANCH'' (AXION_BRANCH cls),
           WORKDIR = get_or merged ''WORKDIR'' (WORKDIR cls),
           THREADS =
             (case merged ''THREADS'' of
                None \<Rightarrow> THREADS cls
              | Some v \<Rightarrow> (case py_int v of Inl e \<Rightarrow> THREADS cls | Inr n \<Rightarrow> n)),
           WITH_MIUI_CAM = to_bool (merged ''WITH_MIUI_CAM'') False,
           APPLY_WPA_PATCHES = to_bool (merged ''APPLY_WPA_PATCHES'') False,
           BUILD_VOLUME_DEVICE =
             get_or merged ''BUILD_VOLUME_DEVICE'' (BUILD_VOLUME_DEVICE cls),
           USE_SAFE_BUILD = to_bool (merged ''USE_SAFE_BUILD'') True,
           DEVICE = get_or merged ''DEVICE'' (DEVICE cls),
           VARIANT = get_or merged ''VARIANT'' (VARIANT cls),
           ROM_TYPE = get_or merged ''ROM_TYPE'' (ROM_TYPE cls),
           CONFIG_OFFICIAL_FLAG =
             get_or merged ''CONFIG_OFFICIAL_FLAG'' (CONFIG_OFFICIAL_FLAG cls),
           CONFIG_CHATID = get_or merged ''CONFIG_CHATID'' (CONFIG_CHATID cls),
           CONFIG_BOT_TOKEN = get_or merged ''CONFIG_BOT_TOKEN'' (CONFIG_BOT_TOKEN cls),
           CONFIG_ERROR_CHATID =
             get_or merged ''CONFIG_ERROR_CHATID'' (CONFIG_ERROR_CHATID cls),
           RCLONE_REMOTE = get_or merged ''RCLONE_REMOTE'' (RCLONE_REMOTE cls),
           RCLONE_FOLDER = get_or merged ''RCLONE_FOLDER'' (RCLONE_FOLDER cls),
           PIXELDRAIN_API_KEY =
             get_or merged ''PIXELDRAIN_API_KEY'' (PIXELDRAIN_API_KEY cls),
           POWEROFF = to_bool (merged ''POWEROFF'') False,
           UPLOAD_OTA_JSON = to_bool (merged ''UPLOAD_OTA_JSON'') True,
           OTA_JSON_PATH = get_or merged ''OTA_JSON_PATH'' (OTA_JSON_PATH cls),
           PIN_SUCCESS_MESSAGE = to_bool (merged ''PIN_SUCCESS_MESSAGE'') True,
           ENV_FILE = env_path \<rparr>"
proof (cases "merged ''THREADS''")
  case None
  then show ?thesis unfolding construct_def by (simp add: to_int_absent)
next
  case (Some v)
  then show ?thesis unfolding construct_def by (simp add: to_int_present)
qed

lemma construct_total: "\<exists>cfg. construct cls merged env_path = Inr cfg"
  unfolding construct_eq by blast

lemma construct_defaults:
  "construct (class_defaults cpu) Map.empty ''.env'' = Inr (class_defaults cpu)"
  unfolding construct_eq by (simp add: class_defaults_def get_or_def to_bool_absent)

lemma bool_field_construct:
  assumes "construct (class_defaults cpu) merged env_path = Inr cfg"
    and "(key, field) \<in> set bool_fields"
  shows "field cfg = to_bool (merged key) (field (class_defaults cpu))"
proof -
  from assms(1) have cfg: "cfg = projr (construct (class_defaults cpu) merged env_path)"
    by simp
  from assms(2) show ?thesis
    unfolding cfg construct_eq bool_fields_def class_defaults_def
    by (elim disjE | simp)+
qed

lemma str_field_construct:
  assumes "construct cls merged env_path = Inr cfg"
    and "(key, field) \<in> set str_fields"
  shows "field cfg = get_or merged key (field cls)"
proof -
  from assms(1) have cfg: "cfg = projr (construct cls merged env_path)"
    by simp
  from assms(2) show ?thesis
    unfolding cfg construct_eq str_fields_def
    by (elim disjE | simp)+
qed

lemma file_layer_total: "\<exists>m. file_layer w p = Inr m"
  by (simp add: file_layer_def split: option.split sum.split)

lemma merged_env_total: "\<exists>m. merged_env w p = Inr m"
  using file_layer_total [of w p] by (auto simp: merged_env_def)

lemma merged_env_no_parser: "dotenv_values w = None \<Longrightarrow> merged_env w p = Inr (environ w)"
  by (simp add: merged_env_def file_layer_def)

lemma merged_env_no_file: "\<not> isfile w p \<Longrightarrow> merged_env w p = Inr (environ w)"
  by (simp add: merged_env_def file_layer_def split: option.split)

lemma merged_env_parse_error:
  "dotenv_values w = Some parse \<Longrightarrow> parse p = Inl e \<Longrightarrow> merged_env w p = Inr (environ w)"
  by (simp add: merged_env_def file_layer_def)

lemma merged_env_parsed:
  "dotenv_values w = Some parse \<Longrightarrow> isfile w p \<Longrightarrow> parse p = Inr file_vals \<Longrightarrow>
   merged_env w p = Inr (drop_none file_vals ++ environ w)"
  by (simp add: merged_env_def file_layer_def)

lemma merged_env_environ:
  assumes "merged_env w p = Inr m" and "environ w k = Some v"
  shows "m k = Some v"
proof -
  obtain m0 where "file_layer w p = Inr m0" using file_layer_total by blast
  with assms(1) have "m = m0 ++ environ w" by (simp add: merged_env_def)
  with assms(2) show ?thesis by (simp add: map_add_Some_iff)
qed

lemma load_eq_construct:
  "merged_env w (resolve_env_path w env_file) = Inr m \<Longrightarrow>
   load w env_file = construct (class_defaults (cpu_count w)) m (resolve_env_path w env_file)"
  by (simp add: load_def Let_def)

lemma load_total: "\<exists>cfg. load w env_file = Inr cfg"
proof -
  obtain m where "merged_env w (resolve_env_path w env_file) = Inr m"
    using merged_env_total by blast
  then show ?thesis by (simp add: load_eq_construct construct_total)
qed

lemma load_ENV_FILE:
  assumes "load w env_file = Inr cfg"
  shows "ENV_FILE cfg = resolve_env_path w env_file"
proof -
  obtain m where m: "merged_env w (resolve_env_path w env_file) = Inr m"
    using merged_env_total by blast
  from assms have "cfg = projr (construct (class_defaults (cpu_count w)) m
      (resolve_env_path w env_file))"
    by (simp add: load_eq_construct [OF m])
  then show ?thesis unfolding construct_eq by simp
qed

lemma or_else_first_choice:
  "or_else env_file (or_else (environ w ''ENV_FILE'') ''.env'') = first_choice w env_file"
  by (cases env_file; cases "environ w ''ENV_FILE''")
    (auto simp: first_choice_def split: list.split)

lemma resolve_env_path_cases:
  "resolve_env_path w env_file =
     (if \<not> isfile w (first_choice w env_file) \<and> isfile w ''.env_xaga'' then ''.env_xaga''
      else first_choice w env_file)"
  by (simp add: resolve_env_path_def or_else_first_choice)

subsection \<open>The operations on a record\<close>



lemma setattr_others: "key \<noteq> name \<Longrightarrow> map_of (setattr name val self) key = map_of self key"
  by (induction self) auto


subsection \<open>The sample inputs\<close>

lemma sample_world_simps:
  "environ (sample_world env files parser) = env"
  "isfile (sample_world env files parser) p = (p \<in> set files)"
  "dotenv_values (sample_world env files parser) = parser"
  "cpu_count (sample_world env files parser) = Some 4"
  by (simp_all add: sample_world_def)

lemma sample_file_simps:
  "sample_file ''RUN_BUILD'' = Some (Some ''0'')"
  "sample_file ''DEVICE'' = Some (Some ''rubens'')"
  "sample_file ''VARIANT'' = Some None"
  by (simp_all add: sample_file_def)

lemma drop_none_sample_file:
  "drop_none sample_file = [''RUN_BUILD'' \<mapsto> ''0'', ''DEVICE'' \<mapsto> ''rubens'']"
  by (rule ext) (simp add: drop_none_def sample_file_def)

section \<open>The claims\<close>

subsection \<open>The loader never raises\<close>

text \<open>
  Claim C1: \<open>load\<close> returns a record for every path argument, environment, file system and
  parser, whatever the parser does. With no file at the path, with no parser, or with a
  parser that raises, the record is the one built from the environment alone; a \<open>THREADS\<close>
  value that does not parse leaves the static default.
\<close>

theorem load_never_raises:
  "(\<exists>cfg. load w env_file = Inr cfg) \<and>
   (\<not> isfile w (resolve_env_path w env_file) \<longrightarrow>
      load w env_file =
        construct (class_defaults (cpu_count w)) (environ w) (resolve_env_path w env_file)) \<and>
   (dotenv_values w = None \<longrightarrow>
      load w env_file =
        construct (class_defaults (cpu_count w)) (environ w) (resolve_env_path w env_file)) \<and>
   (\<forall>parse e. dotenv_values w = Some parse \<and> parse (resolve_env_path w env_file) = Inl e \<longrightarrow>
      load w env_file =
        construct (class_defaults (cpu_count w)) (environ w) (resolve_env_path w env_file)) \<and>
   (\<forall>cfg merged v e. load w env_file = Inr cfg \<and>
      merged_env w (resolve_env_path w env_file) = Inr merged \<and>
      merged ''THREADS'' = Some v \<and> py_int v = Inl e \<longrightarrow>
      THREADS cfg = cpu_count_or_8 (cpu_count w))"
proof (intro conjI allI impI)
  show "\<exists>cfg. load w env_file = Inr cfg" by (rule load_total)
next
  assume "\<not> isfile w (resolve_env_path w env_file)"
  then show "load w env_file =
      construct (class_defaults (cpu_count w)) (environ w) (resolve_env_path w env_file)"
    by (simp add: load_eq_construct merged_env_no_file)
next
  assume "dotenv_values w = None"
  then show "load w env_file =
      construct (class_defaults (cpu_count w)) (environ w) (resolve_env_path w env_file)"
    by (simp add: load_eq_construct merged_env_no_parser)
next
  fix parse e
  assume "dotenv_values w = Some parse \<and> parse (resolve_env_path w env_file) = Inl e"
  then show "load w env_file =
      construct (class_defaults (cpu_count w)) (environ w) (resolve_env_path w env_file)"
    by (simp add: load_eq_construct merged_env_parse_error)
next
  fix cfg merged v e
  assume a: "load w env_file = Inr cfg \<and>
      merged_env w (resolve_env_path w env_file) = Inr merged \<and>
      merged ''THREADS'' = Some v \<and> py_int v = Inl e"
  then have "merged_env w (resolve_env_path w env_file) = Inr merged" by simp
  from load_eq_construct [OF this] a
  have "construct (class_defaults (cpu_count w)) merged
      (resolve_env_path w env_file) = Inr cfg"
    by simp
  then have cfg: "cfg = projr (construct (class_defaults (cpu_count w)) merged
      (resolve_env_path w env_file))"
    by simp
  from a show "THREADS cfg = cpu_count_or_8 (cpu_count w)"
    unfolding cfg construct_eq by (simp add: class_defaults_def)
qed

theorem load_never_raises_witness:
  "load (sample_world [''THREADS'' \<mapsto> ''many''] [''.env''] (Some (\<lambda>p. Inl UnicodeDecodeError))) None =
     Inr (class_defaults (Some 4)) \<and>
   load (sample_world Map.empty [] (Some (\<lambda>p. Inr sample_file))) None =
     Inr (class_defaults (Some 4)) \<and>
   load (sample_world Map.empty [''.env''] None) None = Inr (class_defaults (Some 4)) \<and>
   THREADS (class_defaults (Some 4)) = cpu_count_or_8 (Some 4)"
proof -
  let ?w1 = "sample_world [''THREADS'' \<mapsto> ''many''] [''.env''] (Some (\<lambda>p. Inl UnicodeDecodeError))"
  let ?w2 = "sample_world Map.empty [] (Some (\<lambda>p. Inr sample_file))"
  let ?w3 = "sample_world Map.empty [''.env''] None"
  note t1 = load_never_raises [of ?w1 None]
  note t2 = load_never_raises [of ?w2 None]
  note t3 = load_never_raises [of ?w3 None]
  have many: "py_int ''many'' = Inl ValueError" by code_simp
  have r1: "resolve_env_path ?w1 None = ''.env''"
    and r2: "resolve_env_path ?w2 None = ''.env''"
    and r3: "resolve_env_path ?w3 None = ''.env''"
    by (simp_all add: resolve_env_path_def sample_world_simps)
  have h1: "dotenv_values ?w1 = Some (\<lambda>p. Inl UnicodeDecodeError) \<and>
      (\<lambda>p. Inl UnicodeDecodeError) (resolve_env_path ?w1 None) = Inl UnicodeDecodeError"
    by (simp add: sample_world_simps)
  have "load ?w1 None =
      construct (class_defaults (cpu_count ?w1)) (environ ?w1) (resolve_env_path ?w1 None)"
    by (rule t1 [THEN conjunct2, THEN conjunct2, THEN conjunct2, THEN conjunct1,
          THEN spec, THEN spec, THEN mp, OF h1])
  then have l1: "load ?w1 None = Inr (class_defaults (Some 4))"
    unfolding r1 construct_eq
    by (simp add: sample_world_simps class_defaults_def get_or_def to_bool_absent many)
  have h2: "\<not> isfile ?w2 (resolve_env_path ?w2 None)" by (simp add: r2 sample_world_simps)
  have "load ?w2 None =
      construct (class_defaults (cpu_count ?w2)) (environ ?w2) (resolve_env_path ?w2 None)"
    by (rule t2 [THEN conjunct2, THEN conjunct1, THEN mp, OF h2])
  then have l2: "load ?w2 None = Inr (class_defaults (Some 4))"
    by (simp add: r2 sample_world_simps construct_defaults)
  have h3: "dotenv_values ?w3 = None" by (simp add: sample_world_simps)
  have "load ?w3 None =
      construct (class_defaults (cpu_count ?w3)) (environ ?w3) (resolve_env_path ?w3 None)"
    by (rule t3 [THEN conjunct2, THEN conjunct2, THEN conjunct1, THEN mp, OF h3])
  then have l3: "load ?w3 None = Inr (class_defaults (Some 4))"
    by (simp add: r3 sample_world_simps construct_defaults)
  have m1: "merged_env ?w1 (resolve_env_path ?w1 None) = Inr [''THREADS'' \<mapsto> ''many'']"
    by (simp add: merged_env_parse_error [where e = UnicodeDecodeError] sample_world_simps)
  have h4: "load ?w1 None = Inr (class_defaults (Some 4)) \<and>
      merged_env ?w1 (resolve_env_path ?w1 None) = Inr [''THREADS'' \<mapsto> ''many''] \<and>
      [''THREADS'' \<mapsto> ''many''] ''THREADS'' = Some ''many'' \<and>
      py_int ''many'' = Inl ValueError"
    using l1 m1 many by simp
  have "THREADS (class_defaults (Some 4)) = cpu_count_or_8 (cpu_count ?w1)"
    by (rule t1 [THEN conjunct2, THEN conjunct2, THEN conjunct2, THEN conjunct2,
          THEN spec, THEN spec, THEN spec, THEN spec, THEN mp, OF h4])
  then have "THREADS (class_defaults (Some 4)) = cpu_count_or_8 (Some 4)"
    by (simp add: sample_world_simps)
  with l1 l2 l3 show ?thesis by (intro conjI)
qed

subsection \<open>The environment overrides the file\<close>

text \<open>
  Claim C2: the environment is written over the file values, so a key of the environment
  has the environment's value in the merged mapping, whatever the file gives for it, and
  the record is built from that mapping.
\<close>

theorem environment_overrides_file:
  assumes "environ w key = Some v"
  shows "\<exists>merged. merged_env w (resolve_env_path w env_file) = Inr merged \<and>
           merged key = Some v \<and>
           load w env_file =
             construct (class_defaults (cpu_count w)) merged (resolve_env_path w env_file)"
proof -
  obtain merged where m: "merged_env w (resolve_env_path w env_file) = Inr merged"
    using merged_env_total by blast
  from m assms have "merged key = Some v" by (rule merged_env_environ)
  with m load_eq_construct [OF m] show ?thesis by blast
qed

theorem environment_overrides_file_witness:
  "sample_file ''RUN_BUILD'' = Some (Some ''0'') \<and>
   environ (sample_world [''RUN_BUILD'' \<mapsto> ''1''] [''.env''] (Some (\<lambda>p. Inr sample_file)))
     ''RUN_BUILD'' = Some ''1'' \<and>
   load (sample_world [''RUN_BUILD'' \<mapsto> ''1''] [''.env''] (Some (\<lambda>p. Inr sample_file))) None =
     Inr ((class_defaults (Some 4))\<lparr>RUN_BUILD := True, DEVICE := ''rubens''\<rparr>)"
proof -
  let ?w = "sample_world [''RUN_BUILD'' \<mapsto> ''1''] [''.env''] (Some (\<lambda>p. Inr sample_file))"
  have e: "environ ?w ''RUN_BUILD'' = Some ''1''" by (simp add: sample_world_simps)
  have r: "resolve_env_path ?w None = ''.env''"
    by (simp add: resolve_env_path_def sample_world_simps)
  have m: "merged_env ?w ''.env'' =
      Inr ([''RUN_BUILD'' \<mapsto> ''0'', ''DEVICE'' \<mapsto> ''rubens''] ++ [''RUN_BUILD'' \<mapsto> ''1''])"
    using merged_env_parsed [of ?w "\<lambda>p. Inr sample_file" "''.env''" sample_file]
    by (simp add: sample_world_simps drop_none_sample_file)
  have one: "to_bool (Some ''1'') False = True" by code_simp
  from environment_overrides_file [OF e, of None]
  have "load ?w None = construct (class_defaults (cpu_count ?w))
      ([''RUN_BUILD'' \<mapsto> ''0'', ''DEVICE'' \<mapsto> ''rubens''] ++ [''RUN_BUILD'' \<mapsto> ''1'']) ''.env''"
    unfolding r m by auto
  then have "load ?w None =
      Inr ((class_defaults (Some 4))\<lparr>RUN_BUILD := True, DEVICE := ''rubens''\<rparr>)"
    unfolding construct_eq
    by (simp add: sample_world_simps class_defaults_def get_or_def to_bool_absent one)
  with e show ?thesis by (simp add: sample_file_simps)
qed

subsection \<open>Defaults when there is no source\<close>

text \<open>
  Claim C3: with no file at \<open>.env\<close> or \<open>.env_xaga\<close>, an empty environment and no path
  argument, the record returned is the record of static defaults; its \<open>THREADS\<close> is the
  processor count, or 8 when the count is unavailable.
\<close>

theorem defaults_without_sources:
  assumes "environ w = Map.empty" and "\<not> isfile w ''.env''" and "\<not> isfile w ''.env_xaga''"
  shows "load w None = Inr (class_defaults (cpu_count w)) \<and>
         THREADS (class_defaults (cpu_count w)) =
           (case cpu_count w of None \<Rightarrow> 8 | Some n \<Rightarrow> if n = 0 then 8 else int n) \<and>
         RUN_ENV_SETUP (class_defaults (cpu_count w)) = True \<and>
         RUN_BUILD (class_defaults (cpu_count w)) = False \<and>
         WORKDIR (class_defaults (cpu_count w)) = ''axionos'' \<and>
         DEVICE (class_defaults (cpu_count w)) = ''xaga''"
proof -
  from assms have r: "resolve_env_path w None = ''.env''"
    by (simp add: resolve_env_path_def)
  from assms have m: "merged_env w (resolve_env_path w None) = Inr Map.empty"
    by (simp add: r merged_env_no_file)
  have "load w None = Inr (class_defaults (cpu_count w))"
    unfolding load_eq_construct [OF m] r by (rule construct_defaults)
  then show ?thesis by (simp add: class_defaults_def cpu_count_or_8_def)
qed

theorem defaults_without_sources_witness:
  "environ (sample_world Map.empty [] None) = Map.empty \<and>
   load (sample_world Map.empty [] None) None = Inr (class_defaults (Some 4)) \<and>
   THREADS (class_defaults (Some 4)) = 4"
proof -
  let ?w = "sample_world Map.empty [] None"
  have e: "environ ?w = Map.empty" and f: "\<not> isfile ?w ''.env''"
    and g: "\<not> isfile ?w ''.env_xaga''"
    by (simp_all add: sample_world_simps)
  from defaults_without_sources [OF e f g] e show ?thesis
    by (simp add: sample_world_simps)
qed

subsection \<open>Boolean fields\<close>

text \<open>
  Claim C4, as stated: a boolean field is true when its value matches a truthy word without
  regard to case, false when it matches a falsy word, and the default otherwise. The helper
  strips the value first, so the value \<open>" true "\<close>, which matches no word, is coerced to
  true where the claim gives the default.
\<close>

theorem bool_coercion_unstripped_counterexample:
  "to_bool (Some '' true '') False \<noteq> coerce_bool_spec (Some '' true '') False"
  by code_simp

text \<open>
  Claim C4, amended: for every boolean field, the value of the field is the specification's
  coercion applied to the merged value with its surrounding white space stripped, with the
  field's static default as the default; an absent key gives the default.
\<close>

theorem bool_field_coercion:
  assumes "construct (class_defaults cpu) merged env_path = Inr cfg"
    and "(key, field) \<in> set bool_fields"
  shows "field cfg =
         coerce_bool_spec (map_option strip (merged key)) (field (class_defaults cpu))"
  using bool_field_construct [OF assms] by (simp only: to_bool_spec)

theorem bool_field_coercion_witness:
  "construct (class_defaults None) [''RUN_BUILD'' \<mapsto> '' Yes ''] ''.env'' =
     Inr ((class_defaults None)\<lparr>RUN_BUILD := True\<rparr>) \<and>
   (''RUN_BUILD'', RUN_BUILD) \<in> set bool_fields \<and>
   RUN_BUILD ((class_defaults None)\<lparr>RUN_BUILD := True\<rparr>) =
     coerce_bool_spec (map_option strip ([''RUN_BUILD'' \<mapsto> '' Yes ''] ''RUN_BUILD''))
       (RUN_BUILD (class_defaults None))"
proof -
  have yes: "to_bool (Some '' Yes '') False = True" by code_simp
  have c: "construct (class_defaults None) [''RUN_BUILD'' \<mapsto> '' Yes ''] ''.env'' =
     Inr ((class_defaults None)\<lparr>RUN_BUILD := True\<rparr>)"
    unfolding construct_eq
    by (simp add: class_defaults_def get_or_def to_bool_absent yes)
  have m: "(''RUN_BUILD'', RUN_BUILD) \<in> set bool_fields" by (simp add: bool_fields_def)
  from bool_field_coercion [OF c m] c m show ?thesis by blast
qed

subsection \<open>The integer field\<close>

text \<open>
  Claim C5: \<open>THREADS\<close> is the merged value parsed by \<open>int\<close>, and the static default when the
  key is absent or the value does not parse. The parse is the base 10 one: a non-empty
  sequence of decimal digits, with or without a sign, has its positional value, and a value
  holding any character that is neither a digit, a sign nor an underscore is rejected.
\<close>

theorem threads_coercion:
  assumes "load w env_file = Inr cfg"
    and "merged_env w (resolve_env_path w env_file) = Inr merged"
  shows "THREADS cfg =
           (case merged ''THREADS'' of
              None \<Rightarrow> cpu_count_or_8 (cpu_count w)
            | Some v \<Rightarrow>
                (case py_int v of Inl e \<Rightarrow> cpu_count_or_8 (cpu_count w) | Inr n \<Rightarrow> n)) \<and>
         (\<forall>ds. ds \<noteq> [] \<and> list_all isdigit ds \<longrightarrow>
            py_int ds = Inr (int (decimal_value ds)) \<and>
            py_int (CHR ''+'' # ds) = Inr (int (decimal_value ds)) \<and>
            py_int (CHR ''-'' # ds) = Inr (- int (decimal_value ds))) \<and>
         (\<forall>v c. c \<in> set (strip v) \<and> \<not> isdigit c \<and> c \<noteq> CHR ''_'' \<and> c \<noteq> CHR ''+'' \<and>
            c \<noteq> CHR ''-'' \<longrightarrow> py_int v = Inl ValueError)"
proof -
  from assms have "construct (class_defaults (cpu_count w)) merged
      (resolve_env_path w env_file) = Inr cfg"
    by (simp add: load_eq_construct)
  then have cfg: "cfg = projr (construct (class_defaults (cpu_count w)) merged
      (resolve_env_path w env_file))"
    by simp
  have "THREADS cfg =
           (case merged ''THREADS'' of
              None \<Rightarrow> cpu_count_or_8 (cpu_count w)
            | Some v \<Rightarrow>
                (case py_int v of Inl e \<Rightarrow> cpu_count_or_8 (cpu_count w) | Inr n \<Rightarrow> n))"
    unfolding cfg construct_eq
    by (simp add: class_defaults_def split: option.split sum.split)
  moreover have "\<forall>v c. c \<in> set (strip v) \<and> \<not> isdigit c \<and> c \<noteq> CHR ''_'' \<and> c \<noteq> CHR ''+'' \<and>
            c \<noteq> CHR ''-'' \<longrightarrow> py_int v = Inl ValueError"
    using py_int_non_numeric by blast
  moreover have "\<forall>ds. ds \<noteq> [] \<and> list_all isdigit ds \<longrightarrow>
            py_int ds = Inr (int (decimal_value ds)) \<and>
            py_int (CHR ''+'' # ds) = Inr (int (decimal_value ds)) \<and>
            py_int (CHR ''-'' # ds) = Inr (- int (decimal_value ds))"
    using py_int_digits py_int_plus py_int_minus by blast
  ultimately show ?thesis by (intro conjI)
qed

theorem threads_coercion_witness:
  "load (sample_world [''THREADS'' \<mapsto> '' 12 ''] [] None) None =
     Inr ((class_defaults (Some 4))\<lparr>THREADS := 12\<rparr>) \<and>
   merged_env (sample_world [''THREADS'' \<mapsto> '' 12 ''] [] None)
     (resolve_env_path (sample_world [''THREADS'' \<mapsto> '' 12 ''] [] None) None) =
     Inr [''THREADS'' \<mapsto> '' 12 ''] \<and>
   THREADS ((class_defaults (Some 4))\<lparr>THREADS := 12\<rparr>) = 12 \<and>
   py_int '' 12 '' = Inr 12"
proof -
  let ?w = "sample_world [''THREADS'' \<mapsto> '' 12 ''] [] None"
  have p: "py_int '' 12 '' = Inr 12" by code_simp
  have m: "merged_env ?w (resolve_env_path ?w None) = Inr [''THREADS'' \<mapsto> '' 12 '']"
    by (simp add: merged_env_no_parser sample_world_simps)
  have r: "resolve_env_path ?w None = ''.env''"
    by (simp add: resolve_env_path_def sample_world_simps)
  have l: "load ?w None = Inr ((class_defaults (Some 4))\<lparr>THREADS := 12\<rparr>)"
    unfolding load_eq_construct [OF m] construct_eq r
    by (simp add: sample_world_simps class_defaults_def get_or_def to_bool_absent p)
  from threads_coercion [OF l m] have "THREADS ((class_defaults (Some 4))\<lparr>THREADS := 12\<rparr>) = 12"
    by (simp add: p)
  with l m p show ?thesis by blast
qed

subsection \<open>The path of the dotenv file\<close>

text \<open>
  Claim C6, as stated: the path is the explicit argument if given, else the variable
  \<open>ENV_FILE\<close>, else \<open>.env\<close>. With \<open>ENV_FILE\<close> set to the empty string and no argument,
  the claim gives the empty path, and the loader takes \<open>.env\<close>.
\<close>

theorem env_path_empty_variable_counterexample:
  "map_sum id ENV_FILE (load (sample_world [''ENV_FILE'' \<mapsto> ''''] [''.env''] None) None) \<noteq>
     Inr (env_path_spec (sample_world [''ENV_FILE'' \<mapsto> ''''] [''.env''] None) None)"
proof -
  let ?w = "sample_world [''ENV_FILE'' \<mapsto> ''''] [''.env''] None"
  obtain cfg where l: "load ?w None = Inr cfg" using load_total by blast
  then have "ENV_FILE cfg = resolve_env_path ?w None" by (rule load_ENV_FILE)
  then have "ENV_FILE cfg = ''.env''"
    by (simp add: resolve_env_path_def sample_world_simps)
  moreover have "env_path_spec ?w None = ''''"
    by (simp add: env_path_spec_def sample_world_simps)
  ultimately show ?thesis by (simp add: l)
qed

text \<open>
  Claim C6, amended: the first choice of a path is the explicit argument if given and not
  empty, else the variable \<open>ENV_FILE\<close> if set and not empty, else \<open>.env\<close>. The first choice
  is kept when it is a file or when \<open>.env_xaga\<close> is no file; when the first choice is
  \<open>.env\<close>, that file is absent and \<open>.env_xaga\<close> is a file, the path is \<open>.env_xaga\<close>. The field
  \<open>ENV_FILE\<close> of the record is the path used: the record is the one built from the values
  merged for that path.
\<close>

theorem env_file_resolution:
  assumes "load w env_file = Inr cfg"
  shows "(isfile w (first_choice w env_file) \<or> \<not> isfile w ''.env_xaga'' \<longrightarrow>
            ENV_FILE cfg = first_choice w env_file) \<and>
         (first_choice w env_file = ''.env'' \<and> \<not> isfile w ''.env'' \<and> isfile w ''.env_xaga'' \<longrightarrow>
            ENV_FILE cfg = ''.env_xaga'') \<and>
         (\<exists>merged. merged_env w (ENV_FILE cfg) = Inr merged \<and>
            construct (class_defaults (cpu_count w)) merged (ENV_FILE cfg) = Inr cfg)"
proof -
  have e: "ENV_FILE cfg = resolve_env_path w env_file" using assms by (rule load_ENV_FILE)
  obtain m where m: "merged_env w (resolve_env_path w env_file) = Inr m"
    using merged_env_total by blast
  with assms have "construct (class_defaults (cpu_count w)) m (resolve_env_path w env_file) =
      Inr cfg"
    by (simp add: load_eq_construct [OF m])
  with m have "\<exists>merged. merged_env w (ENV_FILE cfg) = Inr merged \<and>
      construct (class_defaults (cpu_count w)) merged (ENV_FILE cfg) = Inr cfg"
    unfolding e by blast
  moreover have "isfile w (first_choice w env_file) \<or> \<not> isfile w ''.env_xaga'' \<longrightarrow>
      ENV_FILE cfg = first_choice w env_file"
    unfolding e resolve_env_path_cases by auto
  moreover have "first_choice w env_file = ''.env'' \<and> \<not> isfile w ''.env'' \<and>
      isfile w ''.env_xaga'' \<longrightarrow> ENV_FILE cfg = ''.env_xaga''"
    unfolding e resolve_env_path_cases by auto
  ultimately show ?thesis by (intro conjI)
qed

theorem env_file_resolution_witness:
  "load (sample_world Map.empty [''.env_xaga''] None) None =
     Inr ((class_defaults (Some 4))\<lparr>ENV_FILE := ''.env_xaga''\<rparr>) \<and>
   first_choice (sample_world Map.empty [''.env_xaga''] None) None = ''.env'' \<and>
   ENV_FILE ((class_defaults (Some 4))\<lparr>ENV_FILE := ''.env_xaga''\<rparr>) = ''.env_xaga'' \<and>
   load (sample_world [''ENV_FILE'' \<mapsto> ''ci.env''] [''ci.env'', ''.env_xaga''] None) None =
     Inr ((class_defaults (Some 4))\<lparr>ENV_FILE := ''ci.env''\<rparr>) \<and>
   ENV_FILE ((class_defaults (Some 4))\<lparr>ENV_FILE := ''ci.env''\<rparr>) =
     first_choice (sample_world [''ENV_FILE'' \<mapsto> ''ci.env''] [''ci.env'', ''.env_xaga''] None) None"
proof -
  let ?w = "sample_world Map.empty [''.env_xaga''] None"
  let ?v = "sample_world [''ENV_FILE'' \<mapsto> ''ci.env''] [''ci.env'', ''.env_xaga''] None"
  have fw: "first_choice ?w None = ''.env''"
    by (simp add: first_choice_def sample_world_simps)
  have fv: "first_choice ?v None = ''ci.env''"
    by (simp add: first_choice_def sample_world_simps)
  have rw: "resolve_env_path ?w None = ''.env_xaga''"
    by (simp add: resolve_env_path_cases fw sample_world_simps)
  have rv: "resolve_env_path ?v None = ''ci.env''"
    by (simp add: resolve_env_path_cases fv sample_world_simps)
  have mw: "merged_env ?w (resolve_env_path ?w None) = Inr Map.empty"
    by (simp add: merged_env_no_parser sample_world_simps)
  have mv: "merged_env ?v (resolve_env_path ?v None) = Inr [''ENV_FILE'' \<mapsto> ''ci.env'']"
    by (simp add: merged_env_no_parser sample_world_simps)
  have lw: "load ?w None = Inr ((class_defaults (Some 4))\<lparr>ENV_FILE := ''.env_xaga''\<rparr>)"
    unfolding load_eq_construct [OF mw] rw construct_eq
    by (simp add: sample_world_simps class_defaults_def get_or_def to_bool_absent)
  have lv: "load ?v None = Inr ((class_defaults (Some 4))\<lparr>ENV_FILE := ''ci.env''\<rparr>)"
    unfolding load_eq_construct [OF mv] rv construct_eq
    by (simp add: sample_world_simps class_defaults_def get_or_def to_bool_absent)
  have hw: "first_choice ?w None = ''.env'' \<and> \<not> isfile ?w ''.env'' \<and> isfile ?w ''.env_xaga''"
    by (simp add: fw sample_world_simps)
  have hv: "isfile ?v (first_choice ?v None) \<or> \<not> isfile ?v ''.env_xaga''"
    by (simp add: fv sample_world_simps)
  have cw: "ENV_FILE ((class_defaults (Some 4))\<lparr>ENV_FILE := ''.env_xaga''\<rparr>) = ''.env_xaga''"
    by (rule env_file_resolution [OF lw, THEN conjunct2, THEN conjunct1, THEN mp, OF hw])
  have cv: "ENV_FILE ((class_defaults (Some 4))\<lparr>ENV_FILE := ''ci.env''\<rparr>) =
      first_choice ?v None"
    by (rule env_file_resolution [OF lv, THEN conjunct1, THEN mp, OF hv])
  from lw fw cw lv cv show ?thesis by (intro conjI)
qed

subsection \<open>The output adapter\<close>

text \<open>
  Claim C7: \<open>to_script_env\<close> returns a mapping with exactly the seven keys below. The
  string fields are passed through, each flag is rendered as \<open>"true"\<close> or \<open>"false"\<close>, and
  \<open>THREADS\<close> is rendered as its decimal representation, which \<open>int\<close> reads back.
\<close>

theorem to_script_env_rendering:
  "map fst (to_script_env self) =
     [''AXION_REMOTE_URL'', ''AXION_BRANCH'', ''WORKDIR'', ''THREADS'', ''WITH_MIUI_CAM'',
      ''APPLY_WPA_PATCHES'', ''BUILD_VOLUME_DEVICE''] \<and>
   map_of (to_script_env self) ''AXION_REMOTE_URL'' = Some (AXION_REMOTE_URL self) \<and>
   map_of (to_script_env self) ''AXION_BRANCH'' = Some (AXION_BRANCH self) \<and>
   map_of (to_script_env self) ''WORKDIR'' = Some (WORKDIR self) \<and>
   map_of (to_script_env self) ''BUILD_VOLUME_DEVICE'' = Some (BUILD_VOLUME_DEVICE self) \<and>
   map_of (to_script_env self) ''WITH_MIUI_CAM'' =
     Some (if WITH_MIUI_CAM self then ''true'' else ''false'') \<and>
   map_of (to_script_env self) ''APPLY_WPA_PATCHES'' =
     Some (if APPLY_WPA_PATCHES self then ''true'' else ''false'') \<and>
   map_of (to_script_env self) ''THREADS'' = Some (str_int (THREADS self)) \<and>
   is_decimal_of (str_int (THREADS self)) (THREADS self) \<and>
   py_int (str_int (THREADS self)) = Inr (THREADS self)"
  by (simp add: to_script_env_def str_int_decimal py_int_str_int)

subsection \<open>What changes a record\<close>




subsection \<open>Entries without a value\<close>

text \<open>
  Claim C9: a file entry whose value is \<open>None\<close> is dropped before the merge. The merged
  mapping has for that key what the environment has, and the record is the one loaded from
  the same file without the entry.
\<close>

theorem none_entries_dropped:
  assumes "dotenv_values w = Some parse"
    and "parse (resolve_env_path w env_file) = Inr file_vals"
    and "file_vals key = Some None"
  shows "(\<exists>merged. merged_env w (resolve_env_path w env_file) = Inr merged \<and>
            merged key = environ w key) \<and>
         load w env_file =
           load (w\<lparr>dotenv_values :=
                    Some (parse(resolve_env_path w env_file := Inr (file_vals(key := None))))\<rparr>)
             env_file"
proof -
  let ?p = "resolve_env_path w env_file"
  let ?w' = "w\<lparr>dotenv_values := Some (parse(?p := Inr (file_vals(key := None))))\<rparr>"
  have d: "drop_none (file_vals(key := None)) = drop_none file_vals"
    using assms(3) by (auto simp: drop_none_def)
  have k: "drop_none file_vals key = None"
    using assms(3) by (simp add: drop_none_def)
  have r: "resolve_env_path ?w' env_file = ?p" by (simp add: resolve_env_path_def)
  have f: "file_layer ?w' ?p = file_layer w ?p"
    using assms(1,2) by (simp add: file_layer_def d)
  then have m: "merged_env ?w' ?p = merged_env w ?p"
    by (simp add: merged_env_def split: sum.split)
  have l: "load w env_file = load ?w' env_file"
    unfolding load_def Let_def r m by (simp split: sum.split)
  have "\<exists>merged. merged_env w ?p = Inr merged \<and> merged key = environ w key"
  proof (cases "isfile w ?p")
    case True
    with assms(1,2) have "merged_env w ?p = Inr (drop_none file_vals ++ environ w)"
      by (simp add: merged_env_parsed)
    moreover have "(drop_none file_vals ++ environ w) key = environ w key"
      using k by (simp add: map_add_def split: option.split)
    ultimately show ?thesis by blast
  next
    case False
    then show ?thesis by (simp add: merged_env_no_file)
  qed
  with l show ?thesis by blast
qed

theorem none_entries_dropped_witness:
  "sample_file ''VARIANT'' = Some None \<and>
   load (sample_world Map.empty [''.env''] (Some (\<lambda>p. Inr sample_file))) None =
     load (sample_world Map.empty [''.env'']
             (Some (\<lambda>p. Inr [''RUN_BUILD'' \<mapsto> Some ''0'', ''DEVICE'' \<mapsto> Some ''rubens'']))) None"
proof -
  let ?w = "sample_world Map.empty [''.env''] (Some (\<lambda>p. Inr sample_file))"
  let ?w2 = "sample_world Map.empty [''.env'']
             (Some (\<lambda>p. Inr [''RUN_BUILD'' \<mapsto> Some ''0'', ''DEVICE'' \<mapsto> Some ''rubens'']))"
  have c: "sample_file ''VARIANT'' = Some None" by (rule sample_file_simps)
  have t: "load ?w None =
      load (?w\<lparr>dotenv_values := Some ((\<lambda>p. Inr sample_file)
        (resolve_env_path ?w None := Inr (sample_file(''VARIANT'' := None))))\<rparr>) None"
    by (rule none_entries_dropped [of ?w "\<lambda>p. Inr sample_file" None sample_file "''VARIANT''",
          THEN conjunct2])
      (simp_all add: sample_world_simps sample_file_simps)
  have r: "resolve_env_path ?w None = ''.env''"
    by (simp add: resolve_env_path_def sample_world_simps)
  have u: "sample_file(''VARIANT'' := None) =
      [''RUN_BUILD'' \<mapsto> Some ''0'', ''DEVICE'' \<mapsto> Some ''rubens'']"
    by (rule ext) (simp add: sample_file_def)
  have "load (?w\<lparr>dotenv_values := Some ((\<lambda>p. Inr sample_file)
      (''.env'' := Inr [''RUN_BUILD'' \<mapsto> Some ''0'', ''DEVICE'' \<mapsto> Some ''rubens'']))\<rparr>) None =
      load ?w2 None"
    by (simp add: load_def resolve_env_path_def merged_env_def file_layer_def
        sample_world_def)
  with t [unfolded r u] have "load ?w None = load ?w2 None" by (rule trans)
  with c show ?thesis by (intro conjI)
qed

subsection \<open>White space around a value\<close>

text \<open>
  Claim C10: both helpers strip the white space around the raw value before they interpret it,
  so a padded value is coerced as the unpadded one, by \<open>_to_bool\<close> and by \<open>_to_int\<close>.
\<close>

theorem padding_is_ignored:
  assumes "list_all isspace l" and "list_all isspace r"
  shows "to_bool (Some (l @ v @ r)) b = to_bool (Some v) b \<and>
         to_int (Some (l @ v @ r)) n = to_int (Some v) n"
  using strip_pad [OF assms, of v] by (simp add: to_bool_def to_int_def)

theorem padding_is_ignored_witness:
  "list_all isspace '' '' \<and>
   to_bool (Some ('' '' @ ''TRUE'' @ '' '')) False = to_bool (Some ''TRUE'') False \<and>
   to_bool (Some '' TRUE '') False = True \<and>
   to_int (Some ('' '' @ ''42'' @ '' '')) 8 = to_int (Some ''42'') 8 \<and>
   to_int (Some '' 42 '') 8 = Inr 42"
proof -
  have sp: "list_all isspace '' ''" by (simp add: isspace_def)
  have t: "to_bool (Some ''TRUE'') False = True" by code_simp
  have i: "to_int (Some ''42'') 8 = Inr 42" by code_simp
  have b: "to_bool (Some ('' '' @ ''TRUE'' @ '' '')) False = to_bool (Some ''TRUE'') False"
    using padding_is_ignored [OF sp sp] by blast
  have n: "to_int (Some ('' '' @ ''42'' @ '' '')) 8 = to_int (Some ''42'') 8"
    using padding_is_ignored [OF sp sp] by blast
  from b n sp t i show ?thesis by simp
qed

end
